theory Spec2Isabelle
  imports Main "HOL-Library.Multiset" "HOL-Library.Char_ord" "HOL-Library.List_Lexorder"
begin

section \<open>Data model\<close>

text \<open>
  Voar is a Flask application over an SQLite file \<^verbatim>\<open>voar.db\<close> with the two tables
  that \<^verbatim>\<open>init_db\<close> creates. A row of \<^verbatim>\<open>users\<close> and a row of \<^verbatim>\<open>posts\<close> are records
  whose fields carry the aliases \<^verbatim>\<open>u\<close> and \<^verbatim>\<open>p\<close> that the feed query of \<^verbatim>\<open>index\<close> gives
  the tables. Python strings are \<open>string\<close>, Python and SQLite integers are \<open>int\<close>.
  \<^verbatim>\<open>created_at\<close> holds the text that \<^verbatim>\<open>CURRENT_TIMESTAMP\<close> produces; SQLite compares
  it as text, which is the lexicographic order on \<open>string\<close>.
\<close>

text \<open>
  A value held by the Flask session (and bound as an SQL parameter from it): the
  application stores an integer under \<^verbatim>\<open>user_id\<close> and a string under \<^verbatim>\<open>username\<close>.
\<close>

datatype sval = SInt int | SStr string

record user =
  u_id :: int
  u_username :: string
  u_email :: string
  u_password_hash :: string
  u_created_at :: string

record post =
  p_id :: int
  p_user_id :: sval
  p_content :: string
  p_media_filename :: "string option"
  p_created_at :: string

text \<open>A row of the feed query: \<^verbatim>\<open>p.id, p.content, p.media_filename, p.created_at, u.username\<close>.\<close>

record post_view =
  v_id :: int
  v_content :: string
  v_media_filename :: "string option"
  v_created_at :: string
  v_username :: string

text \<open>
  The state a request handler reads and writes: the two tables, the upload directory
  (path to contents), the session of the requesting client, the queue of flashed
  messages, and the number of database connections that are open. Flask keeps the
  flashed messages in the session under a key of its own; here the queue is a field of
  its own, so that \<open>session\<close> holds the keys that app.py writes, and what empties the
  session empties the queue.
\<close>

record state =
  users :: "user list"
  posts :: "post list"
  storage :: "string \<rightharpoonup> string"
  session :: "string \<rightharpoonup> sval"
  flashes :: "string list"
  open_conns :: nat

datatype http_method = GET | POST

text \<open>
  A request as the view function receives it: the framework has already routed it (the
  method is one the route allows) and accepted its body. An uploaded file of
  \<^verbatim>\<open>request.files\<close> is its declared name and its contents.
\<close>

record upload =
  filename :: string
  stream :: string

record request =
  req_method :: http_method
  form :: "string \<rightharpoonup> string"
  files :: "string \<rightharpoonup> upload"

text \<open>The local clock read by \<^verbatim>\<open>datetime.now()\<close>.\<close>

record datetime =
  year :: nat
  month :: nat
  day :: nat
  hour :: nat
  minute :: nat
  second :: nat

datatype db_op = Connect | Execute_Select | Execute_Insert | Commit

text \<open>
  What a handler takes from outside the repository during one request: which database
  call raises (\<^verbatim>\<open>sqlite3.Error\<close>), whether \<^verbatim>\<open>file.save\<close> raises, the two clocks, and
  the werkzeug functions \<^verbatim>\<open>generate_password_hash\<close> (salted, so it is the function of
  this one call) and \<^verbatim>\<open>check_password_hash\<close>, and the step of \<^verbatim>\<open>secure_filename\<close> that
  consults the Unicode database:
  \<^verbatim>\<open>unicodedata.normalize('NFKD', s).encode('ascii', 'ignore').decode('ascii')\<close>.
\<close>

record env =
  db_raises :: "db_op \<Rightarrow> bool"
  save_raises :: bool
  now :: datetime
  current_timestamp :: string
  generate_password_hash :: "string \<Rightarrow> string"
  check_password_hash :: "string \<Rightarrow> string \<Rightarrow> bool"
  normalize_ascii :: "string \<Rightarrow> string"

text \<open>
  Every \<^verbatim>\<open>raise\<close> that leaves a handler is a value: a missing form field
  (\<^verbatim>\<open>request.form[k]\<close>, answered with 400), a database call that raised, and a failed
  \<^verbatim>\<open>file.save\<close> (both answered with 500).
\<close>

datatype error = BadRequestKeyError string | DatabaseError db_op | SaveError

datatype response = Redirect string | Render string "post_view list"

type_synonym result = "(error + response) \<times> state"

section \<open>Configuration\<close>

definition default_secret_key :: string where
  "default_secret_key = ''your-secret-key-change-this-in-production''"

text \<open>\<^verbatim>\<open>Config.SECRET_KEY = os.environ.get('SECRET_KEY') or '...'\<close> of config.py; an empty
  string is falsy.\<close>

definition Config_SECRET_KEY :: "(string \<rightharpoonup> string) \<Rightarrow> string" where
  "Config_SECRET_KEY environ =
     (case environ ''SECRET_KEY'' of
        None \<Rightarrow> default_secret_key
      | Some v \<Rightarrow> if v = [] then default_secret_key else v)"

text \<open>\<^verbatim>\<open>app.secret_key = '...'\<close> of app.py, which imports nothing from config.py: the key
  that signs the sessions does not read the environment.\<close>

definition app_secret_key :: "(string \<rightharpoonup> string) \<Rightarrow> string" where
  "app_secret_key environ = ''your-secret-key-change-this-in-production''"

definition UPLOAD_FOLDER :: string where
  "UPLOAD_FOLDER = ''static/uploads''"

definition ALLOWED_EXTENSIONS :: "string set" where
  "ALLOWED_EXTENSIONS =
     {''png'', ''jpg'', ''jpeg'', ''gif'', ''mp4'', ''avi'', ''mov'', ''webm''}"

section \<open>Strings\<close>

text \<open>\<^verbatim>\<open>str.lower\<close> on the ASCII letters; every other character is kept. (A string is its
  UTF-8 bytes. Outside ASCII, \<^verbatim>\<open>str.lower\<close> yields an ASCII letter only for the Kelvin sign,
  which becomes k, a letter of no allowed extension.)\<close>

definition lower_char :: "char \<Rightarrow> char" where
  "lower_char c =
     (case map_of (zip ''ABCDEFGHIJKLMNOPQRSTUVWXYZ'' ''abcdefghijklmnopqrstuvwxyz'') c of
        None \<Rightarrow> c
      | Some l \<Rightarrow> l)"

definition lower :: "string \<Rightarrow> string" where
  "lower s = map lower_char s"

text \<open>\<^verbatim>\<open>s.rsplit('.', 1)\<close>: split at the last dot, or the whole string when there is none.\<close>

definition rsplit_dot :: "string \<Rightarrow> string list" where
  "rsplit_dot s =
     (if CHR ''.'' \<in> set s
      then [rev (tl (dropWhile (\<lambda>c. c \<noteq> CHR ''.'') (rev s))),
            rev (takeWhile (\<lambda>c. c \<noteq> CHR ''.'') (rev s))]
      else [s])"

definition allowed_file :: "string \<Rightarrow> bool" where
  "allowed_file fname =
     (CHR ''.'' \<in> set fname \<and> lower (rsplit_dot fname ! 1) \<in> ALLOWED_EXTENSIONS)"

text \<open>\<^verbatim>\<open>os.path.join(a, b)\<close> on POSIX.\<close>

definition os_path_join :: "string \<Rightarrow> string \<Rightarrow> string" where
  "os_path_join a b =
     (if b \<noteq> [] \<and> hd b = CHR ''/'' then b
      else if a = [] \<or> last a = CHR ''/'' then a @ b
      else a @ ''/'' @ b)"

definition digit_char :: "nat \<Rightarrow> char" where
  "digit_char n = ''0123456789'' ! (n mod 10)"


text \<open>A number in decimal, and a string padded with zeros on the left to a width.\<close>

function decimal :: "nat \<Rightarrow> string" where
  "decimal n = (if n < 10 then [digit_char n] else decimal (n div 10) @ [digit_char n])"
  by pat_completeness auto
termination
  by (relation "measure id") auto

declare decimal.simps [simp del]

definition zero_pad :: "nat \<Rightarrow> string \<Rightarrow> string" where
  "zero_pad w s = replicate (w - length s) CHR ''0'' @ s"


text \<open>\<^verbatim>\<open>dt.strftime('%Y%m%d_%H%M%S')\<close>: the year in decimal (the C library does not pad
  \<^verbatim>\<open>%Y\<close>, so a year below 1000 has fewer than four digits), every other field padded to
  two digits.\<close>

definition strftime :: "datetime \<Rightarrow> string" where
  "strftime dt =
     decimal (year dt) @ zero_pad 2 (decimal (month dt)) @
     zero_pad 2 (decimal (day dt)) @ ''_'' @
     zero_pad 2 (decimal (hour dt)) @ zero_pad 2 (decimal (minute dt)) @
     zero_pad 2 (decimal (second dt))"

text \<open>
  \<^verbatim>\<open>secure_filename\<close> of werkzeug, on POSIX: the name is folded to ASCII, every \<^verbatim>\<open>/\<close>
  becomes a space, the words between runs of whitespace (\<^verbatim>\<open>str.split()\<close>) are joined
  with \<^verbatim>\<open>_\<close>, every character outside \<^verbatim>\<open>[A-Za-z0-9_.-]\<close> is deleted, and dots and
  underscores are stripped from both ends.
\<close>

definition is_space :: "char \<Rightarrow> bool" where
  "is_space c =
     (c \<in> set [CHR 0x09, CHR 0x0A, CHR 0x0B, CHR 0x0C, CHR 0x0D,
                CHR 0x1C, CHR 0x1D, CHR 0x1E, CHR 0x1F, CHR '' ''])"

fun split_words :: "string \<Rightarrow> string \<Rightarrow> string list" where
  "split_words w [] = (if w = [] then [] else [w])"
| "split_words w (c # cs) =
     (if is_space c then (if w = [] then split_words [] cs else w # split_words [] cs)
      else split_words (w @ [c]) cs)"

definition str_split :: "string \<Rightarrow> string list" where
  "str_split s = split_words [] s"

fun str_join :: "string \<Rightarrow> string list \<Rightarrow> string" where
  "str_join sep [] = []"
| "str_join sep [w] = w"
| "str_join sep (w # v # ws) = w @ sep @ str_join sep (v # ws)"

definition str_strip :: "string \<Rightarrow> string \<Rightarrow> string" where
  "str_strip chars s =
     rev (dropWhile (\<lambda>c. c \<in> set chars) (rev (dropWhile (\<lambda>c. c \<in> set chars) s)))"

definition filename_ascii_char :: "char \<Rightarrow> bool" where
  "filename_ascii_char c =
     (c \<in> set ''ABCDEFGHIJKLMNOPQRSTUVWXYZabcdefghijklmnopqrstuvwxyz0123456789_.-'')"

definition secure_filename :: "env \<Rightarrow> string \<Rightarrow> string" where
  "secure_filename env fname =
     str_strip ''._''
       (filter filename_ascii_char
         (str_join ''_''
           (str_split
             (map (\<lambda>c. if c = CHR ''/'' then CHR '' '' else c) (normalize_ascii env fname)))))"

section \<open>The database\<close>

text \<open>
  \<^verbatim>\<open>sqlite3.connect\<close> opens a connection and \<^verbatim>\<open>conn.close()\<close> closes one; a connection
  is closed only where the source calls \<^verbatim>\<open>close\<close>.
\<close>

definition connect :: "env \<Rightarrow> state \<Rightarrow> error + state" where
  "connect env st =
     (if db_raises env Connect then Inl (DatabaseError Connect)
      else Inr (st\<lparr>open_conns := open_conns st + 1\<rparr>))"

definition close :: "state \<Rightarrow> state" where
  "close st = st\<lparr>open_conns := open_conns st - 1\<rparr>"

text \<open>\<^verbatim>\<open>INTEGER PRIMARY KEY AUTOINCREMENT\<close>: one more than the largest id in use (no row is
  ever deleted), starting at 1.\<close>

definition next_id :: "int list \<Rightarrow> int" where
  "next_id ids = foldr max ids 0 + 1"

definition insert_user :: "env \<Rightarrow> string \<Rightarrow> string \<Rightarrow> string \<Rightarrow> state \<Rightarrow> state" where
  "insert_user env username email password_hash st =
     st\<lparr>users := users st @
        [\<lparr>u_id = next_id (map u_id (users st)), u_username = username, u_email = email,
          u_password_hash = password_hash, u_created_at = current_timestamp env\<rparr>]\<rparr>"

definition insert_post :: "env \<Rightarrow> sval \<Rightarrow> string \<Rightarrow> string option \<Rightarrow> state \<Rightarrow> state" where
  "insert_post env user_id content media_filename st =
     st\<lparr>posts := posts st @
        [\<lparr>p_id = next_id (map p_id (posts st)), p_user_id = user_id, p_content = content,
          p_media_filename = media_filename, p_created_at = current_timestamp env\<rparr>]\<rparr>"

text \<open>\<^verbatim>\<open>FROM posts p JOIN users u ON p.user_id = u.id\<close>: one row for each pair of a post and
  a user whose id is the post's \<^verbatim>\<open>user_id\<close>.\<close>

definition view :: "post \<Rightarrow> user \<Rightarrow> post_view" where
  "view p u =
     \<lparr>v_id = p_id p, v_content = p_content p, v_media_filename = p_media_filename p,
      v_created_at = p_created_at p, v_username = u_username u\<rparr>"

definition join_posts_users :: "post list \<Rightarrow> user list \<Rightarrow> post_view list" where
  "join_posts_users ps us =
     concat (map (\<lambda>p. map (view p) (filter (\<lambda>u. p_user_id p = SInt (u_id u)) us)) ps)"

text \<open>\<^verbatim>\<open>ORDER BY p.created_at DESC\<close>, as an insertion sort that keeps rows of equal
  \<^verbatim>\<open>created_at\<close> in the order of the join.\<close>

fun insert_desc :: "post_view \<Rightarrow> post_view list \<Rightarrow> post_view list" where
  "insert_desc r [] = [r]"
| "insert_desc r (x # xs) =
     (if v_created_at x \<le> v_created_at r then r # x # xs else x # insert_desc r xs)"

definition order_by_created_at_desc :: "post_view list \<Rightarrow> post_view list" where
  "order_by_created_at_desc rows = foldr insert_desc rows []"

text \<open>The query of \<^verbatim>\<open>index\<close>.\<close>

definition list_feed :: "state \<Rightarrow> post_view list" where
  "list_feed st = order_by_created_at_desc (join_posts_users (posts st) (users st))"

section \<open>The request handlers\<close>

definition flash :: "string \<Rightarrow> state \<Rightarrow> state" where
  "flash message st = st\<lparr>flashes := flashes st @ [message]\<rparr>"

definition index :: "env \<Rightarrow> request \<Rightarrow> state \<Rightarrow> result" where
  "index env req st =
     (if session st ''user_id'' = None then (Inr (Redirect ''login''), st)
      else case connect env st of
        Inl e \<Rightarrow> (Inl e, st)
      | Inr st1 \<Rightarrow>
          if db_raises env Execute_Select then (Inl (DatabaseError Execute_Select), st1)
          else (Inr (Render ''index.html'' (list_feed st1)), close st1))"

definition register_user :: "env \<Rightarrow> string \<Rightarrow> string \<Rightarrow> string \<Rightarrow> state \<Rightarrow> result" where
  "register_user env username email password st =
     (case connect env st of
        Inl e \<Rightarrow> (Inl e, st)
      | Inr st1 \<Rightarrow>
          if db_raises env Execute_Select then (Inl (DatabaseError Execute_Select), st1)
          else
            (case find (\<lambda>u. u_username u = username \<or> u_email u = email) (users st1) of
               Some row \<Rightarrow>
                 (Inr (Render ''register.html'' []),
                  close (flash ''Username or email already exists!'' st1))
             | None \<Rightarrow>
                 let password_hash = generate_password_hash env password in
                 if db_raises env Execute_Insert then (Inl (DatabaseError Execute_Insert), st1)
                 else if db_raises env Commit then (Inl (DatabaseError Commit), st1)
                 else (Inr (Redirect ''login''),
                       flash ''Registration successful! Please login.''
                         (close (insert_user env username email password_hash st1)))))"

definition register :: "env \<Rightarrow> request \<Rightarrow> state \<Rightarrow> result" where
  "register env req st =
     (case req_method req of
        POST \<Rightarrow>
          (case form req ''username'' of
             None \<Rightarrow> (Inl (BadRequestKeyError ''username''), st)
           | Some username \<Rightarrow>
          (case form req ''email'' of
             None \<Rightarrow> (Inl (BadRequestKeyError ''email''), st)
           | Some email \<Rightarrow>
          (case form req ''password'' of
             None \<Rightarrow> (Inl (BadRequestKeyError ''password''), st)
           | Some password \<Rightarrow> register_user env username email password st)))
      | GET \<Rightarrow> (Inr (Render ''register.html'' []), st))"

definition login_user :: "env \<Rightarrow> string \<Rightarrow> string \<Rightarrow> state \<Rightarrow> result" where
  "login_user env username password st =
     (case connect env st of
        Inl e \<Rightarrow> (Inl e, st)
      | Inr st1 \<Rightarrow>
          if db_raises env Execute_Select then (Inl (DatabaseError Execute_Select), st1)
          else
            let user = find (\<lambda>u. u_username u = username) (users st1);
                st2 = close st1
            in (case user of
                  Some row \<Rightarrow>
                    if check_password_hash env (u_password_hash row) password
                    then (Inr (Redirect ''index''),
                          flash ''Login successful!''
                            (st2\<lparr>session := ((session st2)(''user_id'' \<mapsto> SInt (u_id row)))
                                               (''username'' \<mapsto> SStr username)\<rparr>))
                    else (Inr (Render ''login.html'' []),
                          flash ''Invalid username or password!'' st2)
                | None \<Rightarrow>
                    (Inr (Render ''login.html'' []),
                     flash ''Invalid username or password!'' st2)))"

definition login :: "env \<Rightarrow> request \<Rightarrow> state \<Rightarrow> result" where
  "login env req st =
     (case req_method req of
        POST \<Rightarrow>
          (case form req ''username'' of
             None \<Rightarrow> (Inl (BadRequestKeyError ''username''), st)
           | Some username \<Rightarrow>
          (case form req ''password'' of
             None \<Rightarrow> (Inl (BadRequestKeyError ''password''), st)
           | Some password \<Rightarrow> login_user env username password st))
      | GET \<Rightarrow> (Inr (Render ''login.html'' []), st))"

text \<open>\<^verbatim>\<open>session.clear()\<close> empties the session with the messages queued in it; the message
  of \<^verbatim>\<open>logout\<close> is flashed afterwards.\<close>

definition logout :: "env \<Rightarrow> request \<Rightarrow> state \<Rightarrow> result" where
  "logout env req st =
     (Inr (Redirect ''login''),
      flash ''You have been logged out.'' (st\<lparr>session := Map.empty, flashes := []\<rparr>))"

text \<open>The upload branch of \<^verbatim>\<open>create_post\<close>: the name that ends up in \<^verbatim>\<open>media_filename\<close>,
  and the state after \<^verbatim>\<open>file.save\<close>. A \<^verbatim>\<open>FileStorage\<close> is truthy when its filename is
  not empty.\<close>

definition media_name :: "env \<Rightarrow> string \<Rightarrow> string" where
  "media_name env fname = strftime (now env) @ ''_'' @ secure_filename env fname"

definition save_media :: "env \<Rightarrow> request \<Rightarrow> state \<Rightarrow> error + (string option \<times> state)" where
  "save_media env req st =
     (case files req ''media'' of
        None \<Rightarrow> Inr (None, st)
      | Some file \<Rightarrow>
          if filename file \<noteq> [] \<and> allowed_file (filename file) then
            let fname = media_name env (filename file) in
            if save_raises env then Inl SaveError
            else Inr (Some fname,
                      st\<lparr>storage := (storage st)(os_path_join UPLOAD_FOLDER fname \<mapsto> stream file)\<rparr>)
          else Inr (None, st))"

definition save_post :: "env \<Rightarrow> sval \<Rightarrow> string \<Rightarrow> string option \<Rightarrow> state \<Rightarrow> result" where
  "save_post env user_id content media_filename st =
     (case connect env st of
        Inl e \<Rightarrow> (Inl e, st)
      | Inr st1 \<Rightarrow>
          if db_raises env Execute_Insert then (Inl (DatabaseError Execute_Insert), st1)
          else if db_raises env Commit then (Inl (DatabaseError Commit), st1)
          else (Inr (Redirect ''index''),
                flash ''Post created successfully!''
                  (close (insert_post env user_id content media_filename st1))))"

definition create_post :: "env \<Rightarrow> request \<Rightarrow> state \<Rightarrow> result" where
  "create_post env req st =
     (case session st ''user_id'' of
        None \<Rightarrow> (Inr (Redirect ''login''), st)
      | Some user_id \<Rightarrow>
          (case req_method req of
             POST \<Rightarrow>
               (case form req ''content'' of
                  None \<Rightarrow> (Inl (BadRequestKeyError ''content''), st)
                | Some content \<Rightarrow>
                    (case save_media env req st of
                       Inl e \<Rightarrow> (Inl e, st)
                     | Inr (media_filename, st1) \<Rightarrow>
                         save_post env user_id content media_filename st1))
           | GET \<Rightarrow> (Inr (Render ''create_post.html'' []), st)))"

text \<open>The routes of the application, each with its view function.\<close>

datatype route = Index | Register | Login | Logout | Create_Post

fun handle :: "route \<Rightarrow> env \<Rightarrow> request \<Rightarrow> state \<Rightarrow> result" where
  "handle Index = index"
| "handle Register = register"
| "handle Login = login"
| "handle Logout = logout"
| "handle Create_Post = create_post"

section \<open>The author of a post\<close>


section \<open>The constraints of the schema\<close>

text \<open>
  What \<^verbatim>\<open>init_db\<close> declares: \<^verbatim>\<open>id\<close> is the primary key of users, \<^verbatim>\<open>username\<close> and \<^verbatim>\<open>email\<close>
  are \<^verbatim>\<open>UNIQUE\<close>, and \<^verbatim>\<open>posts.user_id\<close> references \<^verbatim>\<open>users.id\<close>. A session is in order when
  its \<^verbatim>\<open>user_id\<close>, if it has one, is the id of a user.
\<close>

definition schema_ok :: "state \<Rightarrow> bool" where
  "schema_ok st =
     (distinct (map u_id (users st)) \<and> distinct (map u_username (users st)) \<and>
      distinct (map u_email (users st)) \<and>
      list_all (\<lambda>p. list_ex (\<lambda>u. p_user_id p = SInt (u_id u)) (users st)) (posts st))"

definition session_ok :: "state \<Rightarrow> bool" where
  "session_ok st =
     (case session st ''user_id'' of
        None \<Rightarrow> True
      | Some v \<Rightarrow> list_ex (\<lambda>u. v = SInt (u_id u)) (users st))"

text \<open>The requests of one client, handled one after the other, and the database as
  \<^verbatim>\<open>init_db\<close> leaves a new file.\<close>

fun run :: "(route \<times> env \<times> request) list \<Rightarrow> state \<Rightarrow> state" where
  "run [] st = st"
| "run ((route, env, req) # rs) st = run rs (snd (handle route env req st))"

definition fresh_db :: state where
  "fresh_db = \<lparr>users = [], posts = [], storage = Map.empty, session = Map.empty,
     flashes = [], open_conns = 0\<rparr>"

section \<open>Example inputs\<close>

text \<open>A request environment in which nothing raises, with stand-ins for the werkzeug
  functions; the names of the examples are ASCII, which the folding to ASCII returns as
  they are.\<close>

definition ex_env :: env where
  "ex_env = \<lparr>db_raises = (\<lambda>_. False), save_raises = False,
     now = \<lparr>year = 2024, month = 3, day = 9, hour = 7, minute = 5, second = 1\<rparr>,
     current_timestamp = ''2024-03-09 06:05:01'',
     generate_password_hash = (\<lambda>p. ''hash:'' @ p),
     check_password_hash = (\<lambda>h p. h = ''hash:'' @ p),
     normalize_ascii = (\<lambda>s. s)\<rparr>"

definition ex_alice :: user where
  "ex_alice = \<lparr>u_id = 1, u_username = ''alice'', u_email = ''alice@example.org'',
     u_password_hash = ''hash:wonderland'', u_created_at = ''2024-03-01 10:00:00''\<rparr>"

definition ex_bob :: user where
  "ex_bob = \<lparr>u_id = 2, u_username = ''bob'', u_email = ''bob@example.org'',
     u_password_hash = ''hash:builder'', u_created_at = ''2024-03-02 11:30:00''\<rparr>"

text \<open>Two registered users, no post, and a client that has not logged in.\<close>

definition ex_anonymous :: state where
  "ex_anonymous = \<lparr>users = [ex_alice, ex_bob], posts = [], storage = Map.empty,
     session = Map.empty, flashes = [], open_conns = 0\<rparr>"

text \<open>A registration under a new username with the email address of alice.\<close>

definition ex_register_request :: request where
  "ex_register_request = \<lparr>req_method = POST,
     form = [''username'' \<mapsto> ''carol'', ''email'' \<mapsto> ''alice@example.org'',
             ''password'' \<mapsto> ''secret''],
     files = Map.empty\<rparr>"

text \<open>A post submission with empty content and no upload.\<close>

definition ex_empty_post_request :: request where
  "ex_empty_post_request = \<lparr>req_method = POST, form = [''content'' \<mapsto> []], files = Map.empty\<rparr>"

text \<open>The same database with alice logged in; her session holds one more key.\<close>

definition ex_alice_session :: state where
  "ex_alice_session = \<lparr>users = [ex_alice, ex_bob], posts = [], storage = Map.empty,
     session = [''user_id'' \<mapsto> SInt 1, ''username'' \<mapsto> SStr ''alice'',
                ''theme'' \<mapsto> SStr ''dark''],
     flashes = [], open_conns = 0\<rparr>"

text \<open>A login as bob with his password, and one with a wrong password.\<close>

definition ex_login_request :: request where
  "ex_login_request = \<lparr>req_method = POST,
     form = [''username'' \<mapsto> ''bob'', ''password'' \<mapsto> ''builder''], files = Map.empty\<rparr>"

definition ex_bad_login_request :: request where
  "ex_bad_login_request = \<lparr>req_method = POST,
     form = [''username'' \<mapsto> ''bob'', ''password'' \<mapsto> ''guess''], files = Map.empty\<rparr>"

text \<open>Post submissions with an upload: a picture, and a program.\<close>

definition ex_jpg_request :: request where
  "ex_jpg_request = \<lparr>req_method = POST, form = [''content'' \<mapsto> ''my cat''],
     files = [''media'' \<mapsto> \<lparr>filename = ''cat.JPG'', stream = ''JFIF''\<rparr>]\<rparr>"

definition ex_exe_request :: request where
  "ex_exe_request = \<lparr>req_method = POST, form = [''content'' \<mapsto> ''a tool''],
     files = [''media'' \<mapsto> \<lparr>filename = ''tool.exe'', stream = ''MZ''\<rparr>]\<rparr>"

text \<open>The same environment, except that \<^verbatim>\<open>conn.commit()\<close> raises.\<close>

definition ex_env_commit_fails :: env where
  "ex_env_commit_fails = ex_env\<lparr>db_raises := (\<lambda>op. op = Commit)\<rparr>"

text \<open>The same environment, except that the first statement of a handler raises: a
  \<^verbatim>\<open>SELECT\<close>, or an \<^verbatim>\<open>INSERT\<close>.\<close>

definition ex_env_select_fails :: env where
  "ex_env_select_fails = ex_env\<lparr>db_raises := (\<lambda>op. op = Execute_Select)\<rparr>"

definition ex_env_insert_fails :: env where
  "ex_env_insert_fails = ex_env\<lparr>db_raises := (\<lambda>op. op = Execute_Insert)\<rparr>"



text \<open>A request for a page.\<close>

definition ex_get_request :: request where
  "ex_get_request = \<lparr>req_method = GET, form = Map.empty, files = Map.empty\<rparr>"

text \<open>A registration of a user that the database does not have.\<close>

definition ex_new_register_request :: request where
  "ex_new_register_request = \<lparr>req_method = POST,
     form = [''username'' \<mapsto> ''dave'', ''email'' \<mapsto> ''dave@example.org'',
             ''password'' \<mapsto> ''secret''],
     files = Map.empty\<rparr>"


section \<open>Connections and flashed messages\<close>

lemma close_opened [simp]: "close (st\<lparr>open_conns := Suc (open_conns st)\<rparr>) = st"
  by (simp add: close_def)

lemma close_flash: "close (flash m st) = flash m (close st)"
  by (simp add: close_def flash_def)

section \<open>The session key\<close>

text \<open>
  C7. The key that signs the sessions is meant to be taken from the environment variable
  \<^verbatim>\<open>SECRET_KEY\<close>. With \<^verbatim>\<open>SECRET_KEY=s3cret\<close> in the environment, \<^verbatim>\<open>Config.SECRET_KEY\<close> of
  config.py is \<^verbatim>\<open>s3cret\<close>, but the key of the application is still the literal of
  app.py.
\<close>

theorem app_secret_key_ignores_environment:
  "app_secret_key [''SECRET_KEY'' \<mapsto> ''s3cret''] = ''your-secret-key-change-this-in-production'' \<and>
   app_secret_key [''SECRET_KEY'' \<mapsto> ''s3cret''] \<noteq> ''s3cret'' \<and>
   Config_SECRET_KEY [''SECRET_KEY'' \<mapsto> ''s3cret''] = ''s3cret''"
  by (simp add: app_secret_key_def Config_SECRET_KEY_def)

section \<open>The session gate\<close>

text \<open>
  C4. A request to \<^verbatim>\<open>/\<close> or to \<^verbatim>\<open>/create_post\<close> whose session holds no \<^verbatim>\<open>user_id\<close> is
  answered with a redirect to the login route, and the state (the posts table with it)
  is left as it was.
\<close>

theorem unauthenticated_redirects_to_login:
  assumes "session st ''user_id'' = None"
  shows "index env req st = (Inr (Redirect ''login''), st) \<and>
         create_post env req st = (Inr (Redirect ''login''), st)"
  using assms by (simp add: index_def create_post_def)

theorem unauthenticated_redirects_to_login_witness:
  "session ex_anonymous ''user_id'' = None \<and>
   index ex_env ex_empty_post_request ex_anonymous = (Inr (Redirect ''login''), ex_anonymous) \<and>
   create_post ex_env ex_empty_post_request ex_anonymous =
     (Inr (Redirect ''login''), ex_anonymous) \<and>
   posts (snd (create_post ex_env ex_empty_post_request ex_anonymous)) = posts ex_anonymous"
  using unauthenticated_redirects_to_login [of ex_anonymous ex_env ex_empty_post_request]
  by (simp add: ex_anonymous_def)

section \<open>Registration\<close>

text \<open>
  C1. A registration whose username or email is already in the users table leaves the
  users table as it was; when the connection and the lookup do not raise, the answer is
  the registration form again with the message that the username or email exists, and
  nothing but the queue of flashed messages has changed.
\<close>

theorem register_duplicate_user:
  assumes "req_method req = POST"
    and "form req ''username'' = Some username"
    and "form req ''email'' = Some email"
    and "form req ''password'' = Some password"
    and "\<exists>u \<in> set (users st). u_username u = username \<or> u_email u = email"
  shows "users (snd (register env req st)) = users st \<and>
         (\<not> db_raises env Connect \<and> \<not> db_raises env Execute_Select \<longrightarrow>
            register env req st =
              (Inr (Render ''register.html'' []),
               flash ''Username or email already exists!'' st))"
proof -
  from assms(5) obtain row where
    "find (\<lambda>u. u_username u = username \<or> u_email u = email) (users st) = Some row"
    by (cases "find (\<lambda>u. u_username u = username \<or> u_email u = email) (users st)")
       (auto simp: find_None_iff)
  then show ?thesis
    using assms(1-4)
    by (simp add: register_def register_user_def connect_def close_flash)
       (simp add: flash_def)
qed

theorem register_duplicate_user_witness:
  "(\<exists>u \<in> set (users ex_anonymous). u_username u = ''carol'' \<or> u_email u = ''alice@example.org'') \<and>
   users (snd (register ex_env ex_register_request ex_anonymous)) = users ex_anonymous \<and>
   register ex_env ex_register_request ex_anonymous =
     (Inr (Render ''register.html'' []),
      flash ''Username or email already exists!'' ex_anonymous)"
  using register_duplicate_user
    [of ex_register_request "''carol''" "''alice@example.org''" "''secret''" ex_anonymous ex_env]
  by (simp add: ex_register_request_def ex_anonymous_def ex_alice_def ex_env_def flash_def)

section \<open>Login\<close>

lemma login_user_found:
  assumes "\<not> db_raises env Connect" "\<not> db_raises env Execute_Select"
    and "find (\<lambda>u. u_username u = username) (users st) = Some row"
  shows "login_user env username password st =
     (if check_password_hash env (u_password_hash row) password
      then (Inr (Redirect ''index''),
            flash ''Login successful!''
              (st\<lparr>session := ((session st)(''user_id'' \<mapsto> SInt (u_id row)))
                                (''username'' \<mapsto> SStr username)\<rparr>))
      else (Inr (Render ''login.html'' []), flash ''Invalid username or password!'' st))"
  using assms by (simp add: login_user_def connect_def Let_def)

lemma login_user_not_found:
  assumes "\<not> db_raises env Connect" "\<not> db_raises env Execute_Select"
    and "find (\<lambda>u. u_username u = username) (users st) = None"
  shows "login_user env username password st =
     (Inr (Render ''login.html'' []), flash ''Invalid username or password!'' st)"
  using assms by (simp add: login_user_def connect_def Let_def)

lemma login_post:
  assumes "req_method req = POST" "form req ''username'' = Some username"
    "form req ''password'' = Some password"
  shows "login env req st = login_user env username password st"
  using assms by (simp add: login_def)

text \<open>
  C5. A login submission, when the connection and the lookup do not raise and usernames
  are unique (the \<^verbatim>\<open>UNIQUE\<close> constraint of the users table): it is answered with the
  login form and the message of invalid credentials exactly when no user row has the
  submitted username or the submitted password does not verify against the stored hash
  of the row that has it; and when the row's hash verifies, the session is bound to that
  row's id and to the submitted username, and the answer is a redirect to the feed.
\<close>

theorem login_invalid_credentials_iff:
  assumes "req_method req = POST"
    and "form req ''username'' = Some username"
    and "form req ''password'' = Some password"
    and "\<not> db_raises env Connect" "\<not> db_raises env Execute_Select"
    and "distinct (map u_username (users st))"
  shows "(login env req st =
            (Inr (Render ''login.html'' []), flash ''Invalid username or password!'' st)
          \<longleftrightarrow> (\<forall>u \<in> set (users st). u_username u \<noteq> username) \<or>
              (\<exists>u \<in> set (users st). u_username u = username \<and>
                 \<not> check_password_hash env (u_password_hash u) password))
       \<and> (\<forall>u \<in> set (users st).
             u_username u = username \<and> check_password_hash env (u_password_hash u) password \<longrightarrow>
             login env req st =
               (Inr (Redirect ''index''),
                flash ''Login successful!''
                  (st\<lparr>session := ((session st)(''user_id'' \<mapsto> SInt (u_id u)))
                                    (''username'' \<mapsto> SStr username)\<rparr>)))"
proof (cases "find (\<lambda>u. u_username u = username) (users st)")
  case None
  then have none: "\<forall>u \<in> set (users st). u_username u \<noteq> username"
    by (auto simp: find_None_iff)
  have "login env req st =
          (Inr (Render ''login.html'' []), flash ''Invalid username or password!'' st)"
    using None assms(4,5) by (simp add: login_post [OF assms(1-3)] login_user_not_found)
  with none show ?thesis by blast
next
  case (Some row)
  then have row: "row \<in> set (users st)" "u_username row = username"
    by (auto simp: find_Some_iff)
  have only: "u = row" if "u \<in> set (users st)" "u_username u = username" for u
    using that row assms(6) by (auto simp: distinct_map dest: inj_onD)
  have L: "login env req st =
     (if check_password_hash env (u_password_hash row) password
      then (Inr (Redirect ''index''),
            flash ''Login successful!''
              (st\<lparr>session := ((session st)(''user_id'' \<mapsto> SInt (u_id row)))
                                (''username'' \<mapsto> SStr username)\<rparr>))
      else (Inr (Render ''login.html'' []), flash ''Invalid username or password!'' st))"
    unfolding login_post [OF assms(1-3)] by (rule login_user_found [OF assms(4,5) Some])
  show ?thesis
  proof (cases "check_password_hash env (u_password_hash row) password")
    case True
    have ok: "login env req st =
      (Inr (Redirect ''index''),
            flash ''Login successful!''
              (st\<lparr>session := ((session st)(''user_id'' \<mapsto> SInt (u_id row)))
                                (''username'' \<mapsto> SStr username)\<rparr>))"
      using L True by simp
    have a: "login env req st \<noteq>
        (Inr (Render ''login.html'' []), flash ''Invalid username or password!'' st)"
      unfolding ok by simp
    have b: "\<not> (\<forall>u \<in> set (users st). u_username u \<noteq> username)"
      using row by blast
    have c: "\<not> (\<exists>u \<in> set (users st). u_username u = username \<and>
                 \<not> check_password_hash env (u_password_hash u) password)"
      using only True by blast
    have d: "\<forall>u \<in> set (users st).
             u_username u = username \<and> check_password_hash env (u_password_hash u) password \<longrightarrow>
             login env req st =
               (Inr (Redirect ''index''),
                flash ''Login successful!''
                  (st\<lparr>session := ((session st)(''user_id'' \<mapsto> SInt (u_id u)))
                                    (''username'' \<mapsto> SStr username)\<rparr>))"
      using only ok by blast
    from a b c d show ?thesis by blast
  next
    case False
    have bad: "login env req st =
        (Inr (Render ''login.html'' []), flash ''Invalid username or password!'' st)"
      using L False by simp
    have e: "\<exists>u \<in> set (users st). u_username u = username \<and>
                 \<not> check_password_hash env (u_password_hash u) password"
      using row False by blast
    have d: "\<forall>u \<in> set (users st).
             u_username u = username \<and> check_password_hash env (u_password_hash u) password \<longrightarrow>
             login env req st =
               (Inr (Redirect ''index''),
                flash ''Login successful!''
                  (st\<lparr>session := ((session st)(''user_id'' \<mapsto> SInt (u_id u)))
                                    (''username'' \<mapsto> SStr username)\<rparr>))"
      using only False by blast
    from bad e d show ?thesis by blast
  qed
qed


theorem login_invalid_credentials_iff_witness:
  "distinct (map u_username (users ex_anonymous)) \<and>
   login ex_env ex_bad_login_request ex_anonymous =
     (Inr (Render ''login.html'' []), flash ''Invalid username or password!'' ex_anonymous) \<and>
   login ex_env ex_login_request ex_anonymous =
     (Inr (Redirect ''index''),
      flash ''Login successful!''
        (ex_anonymous\<lparr>session := [''user_id'' \<mapsto> SInt 2, ''username'' \<mapsto> SStr ''bob'']\<rparr>))"
  using login_invalid_credentials_iff
          [of ex_bad_login_request "''bob''" "''guess''" ex_env ex_anonymous]
        login_invalid_credentials_iff
          [of ex_login_request "''bob''" "''builder''" ex_env ex_anonymous]
  by (simp add: ex_bad_login_request_def ex_login_request_def ex_env_def ex_anonymous_def
      ex_alice_def ex_bob_def)

text \<open>
  C10. A successful login (the lookup returns a row whose hash verifies the password)
  writes the row's id and the submitted username into the session whatever the session
  held before: the new session is the old one updated at the keys \<^verbatim>\<open>user_id\<close> and
  \<^verbatim>\<open>username\<close>, so a session of another user is rebound and every other key is kept.
\<close>

theorem login_rebinds_session:
  assumes "req_method req = POST"
    and "form req ''username'' = Some username"
    and "form req ''password'' = Some password"
    and "\<not> db_raises env Connect" "\<not> db_raises env Execute_Select"
    and "find (\<lambda>u. u_username u = username) (users st) = Some row"
    and "check_password_hash env (u_password_hash row) password"
  shows "login env req st =
           (Inr (Redirect ''index''),
            flash ''Login successful!''
              (st\<lparr>session := ((session st)(''user_id'' \<mapsto> SInt (u_id row)))
                                (''username'' \<mapsto> SStr username)\<rparr>)) \<and>
         session (snd (login env req st)) =
           ((session st)(''user_id'' \<mapsto> SInt (u_id row)))(''username'' \<mapsto> SStr username)"
  using assms(7)
  by (simp add: login_post [OF assms(1-3)] login_user_found [OF assms(4-6)] flash_def)

theorem login_rebinds_session_witness:
  "session ex_alice_session ''user_id'' = Some (SInt 1) \<and>
   session ex_alice_session ''username'' = Some (SStr ''alice'') \<and>
   fst (login ex_env ex_login_request ex_alice_session) = Inr (Redirect ''index'') \<and>
   session (snd (login ex_env ex_login_request ex_alice_session)) ''user_id'' = Some (SInt 2) \<and>
   session (snd (login ex_env ex_login_request ex_alice_session)) ''username'' =
     Some (SStr ''bob'') \<and>
   session (snd (login ex_env ex_login_request ex_alice_session)) ''theme'' =
     Some (SStr ''dark'')"
  using login_rebinds_session
          [of ex_login_request "''bob''" "''builder''" ex_env ex_alice_session ex_bob]
  by (simp add: ex_login_request_def ex_env_def ex_alice_session_def ex_alice_def ex_bob_def
      flash_def)

section \<open>Creating a post\<close>

lemma save_post_ok:
  assumes "\<not> db_raises env Connect" "\<not> db_raises env Execute_Insert" "\<not> db_raises env Commit"
  shows "save_post env uid c m st =
     (Inr (Redirect ''index''), flash ''Post created successfully!'' (insert_post env uid c m st))"
  using assms by (simp add: save_post_def connect_def insert_post_def close_def flash_def)

lemma save_media_cases:
  assumes "\<not> save_raises env"
  shows "\<exists>m st1. save_media env req st = Inr (m, st1) \<and> posts st1 = posts st"
  using assms by (auto simp: save_media_def Let_def split: option.splits)

text \<open>
  C9. An authenticated post submission in which nothing raises appends a post whose
  content is the submitted content as it is, the empty string included, and is answered
  with a redirect to the feed.
\<close>

theorem create_post_keeps_content:
  assumes "session st ''user_id'' = Some uid"
    and "req_method req = POST"
    and "form req ''content'' = Some c"
    and "\<not> save_raises env"
    and "\<not> db_raises env Connect" "\<not> db_raises env Execute_Insert" "\<not> db_raises env Commit"
  shows "fst (create_post env req st) = Inr (Redirect ''index'') \<and>
         (\<exists>m. posts (snd (create_post env req st)) =
            posts st @ [\<lparr>p_id = next_id (map p_id (posts st)), p_user_id = uid, p_content = c,
                         p_media_filename = m, p_created_at = current_timestamp env\<rparr>])"
proof -
  obtain m st1 where s: "save_media env req st = Inr (m, st1)" and p: "posts st1 = posts st"
    using save_media_cases [OF assms(4)] by blast
  have "create_post env req st = save_post env uid c m st1"
    using assms(1-3) s by (simp add: create_post_def)
  then show ?thesis
    using p assms(5-7) by (simp add: save_post_ok insert_post_def flash_def)
qed

theorem create_post_keeps_content_witness:
  "fst (create_post ex_env ex_empty_post_request ex_alice_session) = Inr (Redirect ''index'') \<and>
   posts (snd (create_post ex_env ex_empty_post_request ex_alice_session)) =
     [\<lparr>p_id = 1, p_user_id = SInt 1, p_content = [], p_media_filename = None,
       p_created_at = ''2024-03-09 06:05:01''\<rparr>]"
  using create_post_keeps_content [of ex_alice_session "SInt 1" ex_empty_post_request "[]" ex_env]
  by (simp add: ex_alice_session_def ex_empty_post_request_def ex_env_def next_id_def
      create_post_def save_media_def save_post_def connect_def insert_post_def close_def flash_def)

section \<open>Timestamps and file names\<close>



















text \<open>\<^verbatim>\<open>allowed_file\<close> accepts exactly the names that end in a dot and an extension
  without a dot which, in lower case, is in the allow-list.\<close>

lemma rsplit_dot_ext:
  assumes "CHR ''.'' \<notin> set ext"
  shows "rsplit_dot (base @ ''.'' @ ext) ! 1 = ext"
proof -
  have "takeWhile (\<lambda>c. c \<noteq> CHR ''.'') (rev ext @ CHR ''.'' # rev base) = rev ext"
    using assms by (subst takeWhile_append2) auto
  then show ?thesis
    by (simp add: rsplit_dot_def)
qed

lemma rsplit_dot_split:
  assumes "CHR ''.'' \<in> set s"
  shows "s = rsplit_dot s ! 0 @ ''.'' @ rsplit_dot s ! 1 \<and> CHR ''.'' \<notin> set (rsplit_dot s ! 1)"
proof -
  let ?P = "\<lambda>c. c \<noteq> CHR ''.''"
  have ne: "dropWhile ?P (rev s) \<noteq> []"
    using assms by (simp add: dropWhile_eq_Nil_conv)
  then have "hd (dropWhile ?P (rev s)) = CHR ''.''"
    using hd_dropWhile [of ?P "rev s"] by simp
  with ne have d: "dropWhile ?P (rev s) = CHR ''.'' # tl (dropWhile ?P (rev s))"
    by (cases "dropWhile ?P (rev s)") simp_all
  have "rev s = takeWhile ?P (rev s) @ dropWhile ?P (rev s)"
    by simp
  then have "rev s = takeWhile ?P (rev s) @ CHR ''.'' # tl (dropWhile ?P (rev s))"
    using d by simp
  then have "rev (rev s) = rev (takeWhile ?P (rev s) @ CHR ''.'' # tl (dropWhile ?P (rev s)))"
    by (rule arg_cong)
  then have "s = rev (tl (dropWhile ?P (rev s))) @ ''.'' @ rev (takeWhile ?P (rev s))"
    by simp
  moreover have "CHR ''.'' \<notin> set (rev (takeWhile ?P (rev s)))"
    by (auto dest: set_takeWhileD)
  ultimately show ?thesis
    using assms by (simp add: rsplit_dot_def)
qed

lemma allowed_file_iff:
  "allowed_file fname \<longleftrightarrow>
     (\<exists>base ext. fname = base @ ''.'' @ ext \<and> CHR ''.'' \<notin> set ext \<and>
        lower ext \<in> ALLOWED_EXTENSIONS)"
proof
  assume a: "allowed_file fname"
  then have "CHR ''.'' \<in> set fname" and "lower (rsplit_dot fname ! 1) \<in> ALLOWED_EXTENSIONS"
    by (simp_all add: allowed_file_def)
  with rsplit_dot_split [of fname] show
    "\<exists>base ext. fname = base @ ''.'' @ ext \<and> CHR ''.'' \<notin> set ext \<and>
        lower ext \<in> ALLOWED_EXTENSIONS"
    by blast
next
  assume "\<exists>base ext. fname = base @ ''.'' @ ext \<and> CHR ''.'' \<notin> set ext \<and>
        lower ext \<in> ALLOWED_EXTENSIONS"
  then obtain base ext where f: "fname = base @ ''.'' @ ext" and e: "CHR ''.'' \<notin> set ext"
    and l: "lower ext \<in> ALLOWED_EXTENSIONS"
    by blast
  have "rsplit_dot fname ! 1 = ext"
    unfolding f by (rule rsplit_dot_ext [OF e])
  then show "allowed_file fname"
    using f l by (simp add: allowed_file_def)
qed

lemma allowed_file_nonempty: "allowed_file fname \<Longrightarrow> fname \<noteq> []"
  by (auto simp: allowed_file_def)

section \<open>Uploads\<close>

lemma save_media_accepted:
  assumes "files req ''media'' = Some file" "allowed_file (filename file)" "\<not> save_raises env"
  shows "save_media env req st =
     Inr (Some (media_name env (filename file)),
          st\<lparr>storage := (storage st)
             (os_path_join UPLOAD_FOLDER (media_name env (filename file)) \<mapsto> stream file)\<rparr>)"
  using assms allowed_file_nonempty [OF assms(2)] by (simp add: save_media_def Let_def)

lemma save_media_dropped:
  assumes "files req ''media'' = Some file" "\<not> allowed_file (filename file)"
  shows "save_media env req st = Inr (None, st)"
  using assms by (simp add: save_media_def)

lemma create_post_submit:
  assumes "session st ''user_id'' = Some uid" "req_method req = POST"
    "form req ''content'' = Some c"
  shows "create_post env req st =
     (case save_media env req st of
        Inl e \<Rightarrow> (Inl e, st)
      | Inr (media_filename, st1) \<Rightarrow> save_post env uid c media_filename st1)"
  using assms by (simp add: create_post_def)


lemma save_post_result:
  "save_post env uid c m st =
     (if db_raises env Connect then (Inl (DatabaseError Connect), st)
      else if db_raises env Execute_Insert
        then (Inl (DatabaseError Execute_Insert), st\<lparr>open_conns := Suc (open_conns st)\<rparr>)
      else if db_raises env Commit
        then (Inl (DatabaseError Commit), st\<lparr>open_conns := Suc (open_conns st)\<rparr>)
      else (Inr (Redirect ''index''),
            flash ''Post created successfully!'' (insert_post env uid c m st)))"
  by (simp add: save_post_def connect_def insert_post_def close_def flash_def)


text \<open>
  C2. An authenticated post submission that carries an upload, in which nothing raises:
  when the declared file name ends in a dot and an extension that, in lower case, is one
  of png, jpg, jpeg, gif, mp4, avi, mov, webm, the file is written under the upload
  directory and the post that is created names it in \<^verbatim>\<open>media_filename\<close>; when the name
  has no extension or another one, the post is created all the same with no
  \<^verbatim>\<open>media_filename\<close>, nothing is written, and the answer is the redirect to the feed.
\<close>

theorem create_post_media_allow_list:
  assumes "session st ''user_id'' = Some uid"
    and "req_method req = POST"
    and "form req ''content'' = Some c"
    and "files req ''media'' = Some file"
    and "\<not> save_raises env"
    and "\<not> db_raises env Connect" "\<not> db_raises env Execute_Insert" "\<not> db_raises env Commit"
  shows "((\<exists>base ext. filename file = base @ ''.'' @ ext \<and> CHR ''.'' \<notin> set ext \<and>
              lower ext \<in> ALLOWED_EXTENSIONS) \<longrightarrow>
            fst (create_post env req st) = Inr (Redirect ''index'') \<and>
            storage (snd (create_post env req st))
              (os_path_join UPLOAD_FOLDER (media_name env (filename file))) = Some (stream file) \<and>
            posts (snd (create_post env req st)) =
              posts st @ [\<lparr>p_id = next_id (map p_id (posts st)), p_user_id = uid, p_content = c,
                           p_media_filename = Some (media_name env (filename file)),
                           p_created_at = current_timestamp env\<rparr>])
       \<and> (\<not> (\<exists>base ext. filename file = base @ ''.'' @ ext \<and> CHR ''.'' \<notin> set ext \<and>
                lower ext \<in> ALLOWED_EXTENSIONS) \<longrightarrow>
            fst (create_post env req st) = Inr (Redirect ''index'') \<and>
            storage (snd (create_post env req st)) = storage st \<and>
            posts (snd (create_post env req st)) =
              posts st @ [\<lparr>p_id = next_id (map p_id (posts st)), p_user_id = uid, p_content = c,
                           p_media_filename = None, p_created_at = current_timestamp env\<rparr>])"
proof (cases "allowed_file (filename file)")
  case True
  have "create_post env req st =
          save_post env uid c (Some (media_name env (filename file)))
            (st\<lparr>storage := (storage st)
               (os_path_join UPLOAD_FOLDER (media_name env (filename file)) \<mapsto> stream file)\<rparr>)"
    by (simp add: create_post_submit [OF assms(1-3)] save_media_accepted [OF assms(4) True assms(5)])
  moreover from True
  have "\<exists>base ext. filename file = base @ ''.'' @ ext \<and> CHR ''.'' \<notin> set ext \<and>
          lower ext \<in> ALLOWED_EXTENSIONS"
    using allowed_file_iff [of "filename file"] by blast
  ultimately show ?thesis
    using assms(6-8) by (simp add: save_post_result insert_post_def flash_def)
next
  case False
  have "create_post env req st = save_post env uid c None st"
    by (simp add: create_post_submit [OF assms(1-3)] save_media_dropped [OF assms(4) False])
  moreover from False
  have "\<not> (\<exists>base ext. filename file = base @ ''.'' @ ext \<and> CHR ''.'' \<notin> set ext \<and>
          lower ext \<in> ALLOWED_EXTENSIONS)"
    using allowed_file_iff [of "filename file"] by blast
  ultimately show ?thesis
    using assms(6-8) by (simp add: save_post_result insert_post_def flash_def)
qed


theorem create_post_media_allow_list_witness:
  "storage (snd (create_post ex_env ex_jpg_request ex_alice_session))
     ''static/uploads/20240309_070501_cat.JPG'' = Some ''JFIF'' \<and>
   posts (snd (create_post ex_env ex_jpg_request ex_alice_session)) =
     [\<lparr>p_id = 1, p_user_id = SInt 1, p_content = ''my cat'',
       p_media_filename = Some ''20240309_070501_cat.JPG'',
       p_created_at = ''2024-03-09 06:05:01''\<rparr>] \<and>
   fst (create_post ex_env ex_exe_request ex_alice_session) = Inr (Redirect ''index'') \<and>
   storage (snd (create_post ex_env ex_exe_request ex_alice_session)) = Map.empty \<and>
   posts (snd (create_post ex_env ex_exe_request ex_alice_session)) =
     [\<lparr>p_id = 1, p_user_id = SInt 1, p_content = ''a tool'', p_media_filename = None,
       p_created_at = ''2024-03-09 06:05:01''\<rparr>]"
proof -
  have jpg: "\<exists>base ext. ''cat.JPG'' = base @ ''.'' @ ext \<and> CHR ''.'' \<notin> set ext \<and>
               lower ext \<in> ALLOWED_EXTENSIONS"
    by (rule exI [of _ "''cat''"], rule exI [of _ "''JPG''"])
       (simp add: lower_def lower_char_def ALLOWED_EXTENSIONS_def)
  have "\<not> allowed_file ''tool.exe''"
    by (simp add: allowed_file_def rsplit_dot_def lower_def lower_char_def
        ALLOWED_EXTENSIONS_def)
  then have exe: "\<not> (\<exists>base ext. ''tool.exe'' = base @ ''.'' @ ext \<and> CHR ''.'' \<notin> set ext \<and>
               lower ext \<in> ALLOWED_EXTENSIONS)"
    using allowed_file_iff [of "''tool.exe''"] by blast
  have name: "media_name ex_env ''cat.JPG'' = ''20240309_070501_cat.JPG''"
    by (simp add: media_name_def ex_env_def strftime_def zero_pad_def digit_char_def
        decimal.simps secure_filename_def str_strip_def filename_ascii_char_def
        str_split_def is_space_def)
  have path: "os_path_join UPLOAD_FOLDER ''20240309_070501_cat.JPG'' =
                ''static/uploads/20240309_070501_cat.JPG''"
    by (simp add: os_path_join_def UPLOAD_FOLDER_def)
  have env: "\<not> save_raises ex_env" "\<not> db_raises ex_env Connect"
    "\<not> db_raises ex_env Execute_Insert" "\<not> db_raises ex_env Commit"
    "current_timestamp ex_env = ''2024-03-09 06:05:01''"
    by (simp_all add: ex_env_def)
  have st: "session ex_alice_session ''user_id'' = Some (SInt 1)"
    "posts ex_alice_session = []" "storage ex_alice_session = Map.empty"
    by (simp_all add: ex_alice_session_def)
  have a: "req_method ex_jpg_request = POST" "form ex_jpg_request ''content'' = Some ''my cat''"
    "files ex_jpg_request ''media'' = Some \<lparr>filename = ''cat.JPG'', stream = ''JFIF''\<rparr>"
    by (simp_all add: ex_jpg_request_def)
  have b: "req_method ex_exe_request = POST" "form ex_exe_request ''content'' = Some ''a tool''"
    "files ex_exe_request ''media'' = Some \<lparr>filename = ''tool.exe'', stream = ''MZ''\<rparr>"
    by (simp_all add: ex_exe_request_def)
  from create_post_media_allow_list [OF st(1) a env(1-4)] jpg
  have j: "storage (snd (create_post ex_env ex_jpg_request ex_alice_session))
             (os_path_join UPLOAD_FOLDER (media_name ex_env ''cat.JPG'')) = Some ''JFIF''"
    "posts (snd (create_post ex_env ex_jpg_request ex_alice_session)) =
       posts ex_alice_session @
         [\<lparr>p_id = next_id (map p_id (posts ex_alice_session)), p_user_id = SInt 1,
            p_content = ''my cat'', p_media_filename = Some (media_name ex_env ''cat.JPG''),
            p_created_at = current_timestamp ex_env\<rparr>]"
    by simp_all
  from create_post_media_allow_list [OF st(1) b env(1-4)] exe
  have e: "fst (create_post ex_env ex_exe_request ex_alice_session) = Inr (Redirect ''index'')"
    "storage (snd (create_post ex_env ex_exe_request ex_alice_session)) =
       storage ex_alice_session"
    "posts (snd (create_post ex_env ex_exe_request ex_alice_session)) =
       posts ex_alice_session @
         [\<lparr>p_id = next_id (map p_id (posts ex_alice_session)), p_user_id = SInt 1,
            p_content = ''a tool'', p_media_filename = None,
            p_created_at = current_timestamp ex_env\<rparr>]"
    by simp_all
  show ?thesis
    using j e by (simp add: name path env(5) st(2,3) next_id_def)
qed



section \<open>Database connections\<close>

text \<open>Each handler leaves the count of open connections as it found it, except when it
  ends in a statement that raised: then the count is one more.\<close>

lemma index_conns:
  "open_conns (snd (index env req st)) =
     (if fst (index env req st) \<in> {Inl (DatabaseError Execute_Select),
           Inl (DatabaseError Execute_Insert), Inl (DatabaseError Commit)}
      then Suc (open_conns st) else open_conns st)"
  by (simp add: index_def connect_def close_def)

lemma register_user_conns:
  "open_conns (snd (register_user env username email password st)) =
     (if fst (register_user env username email password st) \<in>
           {Inl (DatabaseError Execute_Select), Inl (DatabaseError Execute_Insert),
            Inl (DatabaseError Commit)}
      then Suc (open_conns st) else open_conns st)"
  by (simp add: register_user_def connect_def flash_def insert_user_def close_def Let_def
      split: option.splits)

lemma register_conns:
  "open_conns (snd (register env req st)) =
     (if fst (register env req st) \<in> {Inl (DatabaseError Execute_Select),
           Inl (DatabaseError Execute_Insert), Inl (DatabaseError Commit)}
      then Suc (open_conns st) else open_conns st)"
  by (simp add: register_def register_user_conns split: http_method.splits option.splits)

lemma login_user_conns:
  "open_conns (snd (login_user env username password st)) =
     (if fst (login_user env username password st) \<in> {Inl (DatabaseError Execute_Select),
           Inl (DatabaseError Execute_Insert), Inl (DatabaseError Commit)}
      then Suc (open_conns st) else open_conns st)"
  by (simp add: login_user_def connect_def flash_def close_def Let_def split: option.splits)

lemma login_conns:
  "open_conns (snd (login env req st)) =
     (if fst (login env req st) \<in> {Inl (DatabaseError Execute_Select),
           Inl (DatabaseError Execute_Insert), Inl (DatabaseError Commit)}
      then Suc (open_conns st) else open_conns st)"
  by (simp add: login_def login_user_conns split: http_method.splits option.splits)

lemma logout_conns:
  "open_conns (snd (logout env req st)) = open_conns st \<and>
   fst (logout env req st) = Inr (Redirect ''login'')"
  by (simp add: logout_def flash_def)

lemma save_media_conns:
  "save_media env req st = Inr (m, st1) \<Longrightarrow> open_conns st1 = open_conns st"
  by (auto simp: save_media_def Let_def split: option.splits if_splits)

lemma save_media_error: "save_media env req st = Inl e \<Longrightarrow> e = SaveError"
  by (auto simp: save_media_def Let_def split: option.splits if_splits)

lemma save_post_conns:
  "open_conns (snd (save_post env uid c m st)) =
     (if fst (save_post env uid c m st) \<in> {Inl (DatabaseError Execute_Select),
           Inl (DatabaseError Execute_Insert), Inl (DatabaseError Commit)}
      then Suc (open_conns st) else open_conns st)"
  by (simp add: save_post_result insert_post_def flash_def)

lemma create_post_conns:
  "open_conns (snd (create_post env req st)) =
     (if fst (create_post env req st) \<in> {Inl (DatabaseError Execute_Select),
           Inl (DatabaseError Execute_Insert), Inl (DatabaseError Commit)}
      then Suc (open_conns st) else open_conns st)"
proof (cases "save_media env req st")
  case (Inl e)
  then show ?thesis
    using save_media_error [OF Inl]
    by (simp add: create_post_def split: http_method.splits option.splits)
next
  case (Inr p)
  obtain m st1 where p: "p = (m, st1)" by (cases p)
  have "open_conns st1 = open_conns st"
    using Inr p by (auto dest: save_media_conns)
  then show ?thesis
    using save_post_conns [of env _ _ m st1]
    by (simp add: create_post_def Inr p split: http_method.splits option.splits)
qed

text \<open>
  C6, as the code has it. Whatever the route, the request and the state, a request
  leaves as many connections open as it found, on every exit path but one kind: a
  statement (\<^verbatim>\<open>execute\<close> or \<^verbatim>\<open>commit\<close>) that raises after the handler has opened its
  connection. On every path of that kind the connection of the handler stays open: the
  count of open connections is one more than before. The handlers call \<^verbatim>\<open>conn.close()\<close>
  in line, with no \<^verbatim>\<open>try\<close>, \<^verbatim>\<open>finally\<close> or \<^verbatim>\<open>with\<close> around it.
\<close>

theorem connection_closed_unless_statement_raises:
  "open_conns (snd (handle route env req st)) =
     (if fst (handle route env req st) \<in> {Inl (DatabaseError Execute_Select),
           Inl (DatabaseError Execute_Insert), Inl (DatabaseError Commit)}
      then Suc (open_conns st) else open_conns st)"
proof (cases route)
  case Index
  then show ?thesis by (simp only: handle.simps index_conns)
next
  case Register
  then show ?thesis by (simp only: handle.simps register_conns)
next
  case Login
  then show ?thesis by (simp only: handle.simps login_conns)
next
  case Logout
  then show ?thesis by (simp add: logout_conns)
next
  case Create_Post
  then show ?thesis by (simp only: handle.simps create_post_conns)
qed

theorem connection_closed_unless_statement_raises_witness:
  "fst (handle Login ex_env ex_login_request ex_anonymous) = Inr (Redirect ''index'') \<and>
   open_conns (snd (handle Login ex_env ex_login_request ex_anonymous)) =
     open_conns ex_anonymous \<and>
   fst (handle Login ex_env_select_fails ex_login_request ex_anonymous) =
     Inl (DatabaseError Execute_Select) \<and>
   open_conns (snd (handle Login ex_env_select_fails ex_login_request ex_anonymous)) =
     Suc (open_conns ex_anonymous)"
proof -
  have r: "fst (handle Login ex_env ex_login_request ex_anonymous) = Inr (Redirect ''index'')"
    by (simp add: login_def login_user_def connect_def Let_def ex_env_def ex_login_request_def
        ex_anonymous_def ex_alice_def ex_bob_def)
  have s: "fst (handle Login ex_env_select_fails ex_login_request ex_anonymous) =
             Inl (DatabaseError Execute_Select)"
    by (simp add: login_def login_user_def connect_def Let_def ex_env_select_fails_def
        ex_env_def ex_login_request_def)
  from connection_closed_unless_statement_raises [of Login ex_env ex_login_request ex_anonymous]
  have a: "open_conns (snd (handle Login ex_env ex_login_request ex_anonymous)) =
          open_conns ex_anonymous"
    unfolding r by simp
  from connection_closed_unless_statement_raises
    [of Login ex_env_select_fails ex_login_request ex_anonymous]
  have b: "open_conns (snd (handle Login ex_env_select_fails ex_login_request ex_anonymous)) =
          Suc (open_conns ex_anonymous)"
    unfolding s by simp
  from r s a b show ?thesis by simp
qed

text \<open>
  C6, as it is stated, fails on each path on which a statement raises: the \<^verbatim>\<open>SELECT\<close> of
  \<^verbatim>\<open>index\<close>, of \<^verbatim>\<open>login\<close> and of \<^verbatim>\<open>register\<close>, the \<^verbatim>\<open>INSERT\<close> and the \<^verbatim>\<open>commit\<close> of
  \<^verbatim>\<open>register\<close> and of \<^verbatim>\<open>create_post\<close>. Each time the handler raises with its connection
  still open: no connection was open before the request, one is after it.
\<close>

theorem connection_left_open_counterexample:
  "open_conns ex_alice_session = 0 \<and> open_conns ex_anonymous = 0 \<and>
   handle Index ex_env_select_fails ex_get_request ex_alice_session =
     (Inl (DatabaseError Execute_Select), ex_alice_session\<lparr>open_conns := 1\<rparr>) \<and>
   handle Login ex_env_select_fails ex_login_request ex_anonymous =
     (Inl (DatabaseError Execute_Select), ex_anonymous\<lparr>open_conns := 1\<rparr>) \<and>
   handle Register ex_env_select_fails ex_new_register_request ex_anonymous =
     (Inl (DatabaseError Execute_Select), ex_anonymous\<lparr>open_conns := 1\<rparr>) \<and>
   handle Register ex_env_insert_fails ex_new_register_request ex_anonymous =
     (Inl (DatabaseError Execute_Insert), ex_anonymous\<lparr>open_conns := 1\<rparr>) \<and>
   handle Register ex_env_commit_fails ex_new_register_request ex_anonymous =
     (Inl (DatabaseError Commit), ex_anonymous\<lparr>open_conns := 1\<rparr>) \<and>
   handle Create_Post ex_env_insert_fails ex_empty_post_request ex_alice_session =
     (Inl (DatabaseError Execute_Insert), ex_alice_session\<lparr>open_conns := 1\<rparr>) \<and>
   handle Create_Post ex_env_commit_fails ex_empty_post_request ex_alice_session =
     (Inl (DatabaseError Commit), ex_alice_session\<lparr>open_conns := 1\<rparr>)"
  by (simp add: index_def login_def login_user_def create_post_def save_media_def save_post_def
      register_def register_user_def connect_def ex_env_select_fails_def
      ex_env_insert_fails_def ex_env_commit_fails_def ex_env_def ex_get_request_def
      ex_login_request_def ex_empty_post_request_def ex_new_register_request_def
      ex_alice_session_def ex_anonymous_def ex_alice_def ex_bob_def)

section \<open>The feed\<close>







lemma find_SomeD: "find P xs = Some x \<Longrightarrow> x \<in> set xs \<and> P x"
  by (induction xs) (auto split: if_splits)







lemma save_media_tables:
  "save_media env req st = Inr (m, st1) \<Longrightarrow> posts st1 = posts st \<and> users st1 = users st"
  by (auto simp: save_media_def Let_def split: option.splits if_splits)





section \<open>The handlers keep the constraints of the schema\<close>

text \<open>
  The hypotheses on the database that the theorems on login and on the feed make hold in
  every state that the handlers reach from a new database: no handler deletes a row,
  \<^verbatim>\<open>register\<close> inserts a user only after its lookup found neither the username nor the
  email, with a fresh id, \<^verbatim>\<open>login\<close> writes the id of a row it found into the session, and
  \<^verbatim>\<open>create_post\<close> inserts a post under the \<^verbatim>\<open>user_id\<close> of the session.
\<close>

lemma le_foldr_max: "(x::int) \<in> set ids \<Longrightarrow> x \<le> foldr max ids 0"
  by (induction ids) auto

lemma next_id_fresh: "next_id ids \<notin> set ids"
  using le_foldr_max [of "next_id ids" ids] by (auto simp: next_id_def)

lemma find_NoneD: "find P xs = None \<Longrightarrow> x \<in> set xs \<Longrightarrow> \<not> P x"
  by (simp add: find_None_iff)

lemma index_keeps:
  "users (snd (index env req st)) = users st \<and> posts (snd (index env req st)) = posts st \<and>
   session (snd (index env req st)) = session st"
  by (simp add: index_def connect_def close_def split: if_splits)

lemma logout_keeps:
  "users (snd (logout env req st)) = users st \<and> posts (snd (logout env req st)) = posts st \<and>
   session (snd (logout env req st)) = Map.empty"
  by (simp add: logout_def flash_def)

lemma register_user_ok:
  assumes "schema_ok st" "session_ok st"
  shows "schema_ok (snd (register_user env username email password st)) \<and>
         session_ok (snd (register_user env username email password st))"
proof (cases "find (\<lambda>u. u_username u = username \<or> u_email u = email) (users st)")
  case None
  then have fresh: "\<forall>u \<in> set (users st). u_username u \<noteq> username \<and> u_email u \<noteq> email"
    by (auto dest: find_NoneD)
  have new: "next_id (map u_id (users st)) \<notin> u_id ` set (users st)"
    using next_id_fresh [of "map u_id (users st)"] by simp
  show ?thesis
    using assms None fresh new
    by (auto simp: register_user_def connect_def close_def flash_def insert_user_def Let_def
        schema_ok_def session_ok_def list_all_iff list_ex_iff split: option.splits)
next
  case (Some row)
  then show ?thesis
    using assms
    by (auto simp: register_user_def connect_def close_def flash_def
        schema_ok_def session_ok_def split: option.splits)
qed

lemma register_ok:
  assumes "schema_ok st" "session_ok st"
  shows "schema_ok (snd (register env req st)) \<and> session_ok (snd (register env req st))"
  using assms register_user_ok [OF assms]
  by (auto simp: register_def split: http_method.splits option.splits)

lemma login_user_ok:
  assumes "schema_ok st" "session_ok st"
  shows "schema_ok (snd (login_user env username password st)) \<and>
         session_ok (snd (login_user env username password st))"
proof (cases "find (\<lambda>u. u_username u = username) (users st)")
  case None
  then show ?thesis
    using assms
    by (auto simp: login_user_def connect_def close_def flash_def Let_def
        schema_ok_def session_ok_def split: option.splits)
next
  case (Some row)
  then have "row \<in> set (users st)"
    by (auto dest: find_SomeD)
  then show ?thesis
    using assms Some
    by (auto simp: login_user_def connect_def close_def flash_def Let_def
        schema_ok_def session_ok_def list_ex_iff split: option.splits)
qed

lemma login_ok:
  assumes "schema_ok st" "session_ok st"
  shows "schema_ok (snd (login env req st)) \<and> session_ok (snd (login env req st))"
  using assms login_user_ok [OF assms]
  by (auto simp: login_def split: http_method.splits option.splits)

lemma save_media_session:
  "save_media env req st = Inr (m, st1) \<Longrightarrow> session st1 = session st"
  by (auto simp: save_media_def Let_def split: option.splits if_splits)

lemma save_post_ok_inv:
  assumes "schema_ok st" "session_ok st" "session st ''user_id'' = Some uid"
  shows "schema_ok (snd (save_post env uid c m st)) \<and> session_ok (snd (save_post env uid c m st))"
  using assms
  by (auto simp: save_post_result insert_post_def flash_def schema_ok_def session_ok_def
      list_all_iff)

lemma create_post_ok:
  assumes "schema_ok st" "session_ok st"
  shows "schema_ok (snd (create_post env req st)) \<and> session_ok (snd (create_post env req st))"
proof (cases "session st ''user_id''")
  case None
  then show ?thesis using assms by (simp add: create_post_def)
next
  case (Some uid)
  show ?thesis
  proof (cases "save_media env req st")
    case (Inl e)
    then show ?thesis
      using assms Some
      by (auto simp: create_post_def split: http_method.splits option.splits)
  next
    case (Inr r)
    obtain m st1 where r: "r = (m, st1)" by (cases r)
    from Inr r save_media_tables [of env req st m st1] save_media_session [of env req st m st1]
    have k: "posts st1 = posts st" "users st1 = users st" "session st1 = session st"
      by simp_all
    then have "schema_ok st1" "session_ok st1" "session st1 ''user_id'' = Some uid"
      using assms Some by (simp_all add: schema_ok_def session_ok_def)
    from save_post_ok_inv [OF this] show ?thesis
      using assms Some Inr r
      by (auto simp: create_post_def split: http_method.splits option.splits)
  qed
qed

lemma handle_ok:
  assumes "schema_ok st" "session_ok st"
  shows "schema_ok (snd (handle route env req st)) \<and> session_ok (snd (handle route env req st))"
proof (cases route)
  case Index
  then show ?thesis
    using assms index_keeps [of env req st]
    by (auto simp: schema_ok_def session_ok_def split: option.splits)
next
  case Register
  then show ?thesis using register_ok [OF assms] by simp
next
  case Login
  then show ?thesis using login_ok [OF assms] by simp
next
  case Logout
  then show ?thesis
    using assms logout_keeps [of env req st]
    by (auto simp: schema_ok_def session_ok_def split: option.splits)
next
  case Create_Post
  then show ?thesis using create_post_ok [OF assms] by simp
qed

lemma run_ok: "schema_ok st \<Longrightarrow> session_ok st \<Longrightarrow> schema_ok (run rs st) \<and> session_ok (run rs st)"
proof (induction rs arbitrary: st)
  case Nil
  then show ?case by simp
next
  case (Cons r rs)
  obtain route env req where r: "r = (route, env, req)" by (cases r)
  from handle_ok [OF Cons.prems] Cons.IH show ?case
    by (simp add: r)
qed

lemma reachable_ok: "schema_ok (run rs fresh_db) \<and> session_ok (run rs fresh_db)"
  by (rule run_ok) (simp_all add: fresh_db_def schema_ok_def session_ok_def)

end
